theory Spec2Isabelle
  imports Complex_Main "HOL-Library.Multiset"
begin

section \<open>Automobile Defect Detection Portal: a shallow embedding of \<^verbatim>\<open>src/app.py\<close>\<close>

text \<open>
  The development follows \<^verbatim>\<open>app.py\<close>: the module constants, the \<^verbatim>\<open>detection_history\<close>
  table, the \<^verbatim>\<open>upload\<close> handler (validation, file naming, the loop over
  \<^verbatim>\<open>results.boxes\<close>, the \<^verbatim>\<open>INSERT\<close>) and the queries of \<^verbatim>\<open>dashboard\<close> and
  \<^verbatim>\<open>history\<close>.

  What lies outside the Python file is a parameter of the model:
  \<^item> the YOLO model (its answer \<^verbatim>\<open>results.boxes\<close> for the saved file, and its table
    \<^verbatim>\<open>model.names\<close>);
  \<^item> the rendering of a float by \<^verbatim>\<open>f"{conf:.2%}"\<close> and \<^verbatim>\<open>f"{conf:.0%}"\<close>, and
    \<^verbatim>\<open>cv2.getTextSize\<close>;
  \<^item> the clock (\<^verbatim>\<open>datetime.now()\<close>, SQLite's \<^verbatim>\<open>CURRENT_TIMESTAMP\<close>) and
    \<^verbatim>\<open>uuid.uuid4()\<close>.
  The file system is a map from path strings to contents on which every write succeeds
  (no directories, permissions or full disks, and two paths are one file only when they
  are one string), an image is its decoded source together with the drawing calls
  applied to it, an OpenCV drawing call fails exactly when a coordinate does not fit a C
  \<^verbatim>\<open>int\<close>, and a handler runs atomically on the state (no interleaving of requests is
  modelled).
\<close>

subsection \<open>Python strings\<close>

text \<open>\<^verbatim>\<open>str.lower()\<close> on the ASCII letters; every other byte is left as it is.\<close>

definition lower_char :: "char \<Rightarrow> char" where
  "lower_char c =
     (case map_of (zip ''ABCDEFGHIJKLMNOPQRSTUVWXYZ'' ''abcdefghijklmnopqrstuvwxyz'') c of
        None \<Rightarrow> c
      | Some d \<Rightarrow> d)"

definition lower :: "string \<Rightarrow> string" where
  "lower s = map lower_char s"

text \<open>
  \<^verbatim>\<open>s.rsplit(".", 1)[-1]\<close>: the text after the last dot, and the whole of \<^verbatim>\<open>s\<close> when
  it has no dot.
\<close>

definition rsplit_last :: "string \<Rightarrow> string" where
  "rsplit_last s = rev (takeWhile (\<lambda>c. c \<noteq> CHR ''.'') (rev s))"

text \<open>\<^verbatim>\<open>sep.join(xs)\<close>.\<close>

fun join :: "string \<Rightarrow> string list \<Rightarrow> string" where
  "join sep [] = []"
| "join sep [x] = x"
| "join sep (x # y # ys) = x @ sep @ join sep (y # ys)"

text \<open>
  \<^verbatim>\<open>os.path.join(a, b)\<close> (posixpath): an absolute second component replaces the
  first.
\<close>

definition os_path_join :: "string \<Rightarrow> string \<Rightarrow> string" where
  "os_path_join a b =
     (if take 1 b = ''/'' then b
      else if a = [] \<or> last a = CHR ''/'' then a @ b
      else a @ ''/'' @ b)"

subsection \<open>Application configuration\<close>

definition UPLOAD_FOLDER :: string where
  "UPLOAD_FOLDER = ''static/uploads''"

definition RESULT_FOLDER :: string where
  "RESULT_FOLDER = ''static/results''"

type_synonym color = "nat \<times> nat \<times> nat"

definition DEFECT_COLORS :: "(string \<times> color) list" where
  "DEFECT_COLORS =
     [(''dent'', (203, 192, 255)),
      (''scratch'', (255, 0, 0)),
      (''lamp_broken'', (0, 255, 255)),
      (''glass_broken'', (128, 0, 128)),
      (''tire_flat'', (0, 0, 255))]"

text \<open>\<^verbatim>\<open>d.get(k, default)\<close> on a dictionary given by its items.\<close>

definition dict_get :: "('k \<times> 'v) list \<Rightarrow> 'k \<Rightarrow> 'v \<Rightarrow> 'v" where
  "dict_get d k dflt = (case map_of d k of None \<Rightarrow> dflt | Some v \<Rightarrow> v)"

definition allowed_extensions :: "string set" where
  "allowed_extensions = {''jpg'', ''jpeg'', ''png''}"

subsection \<open>Detector output\<close>

text \<open>
  A Python float: the finite values (as the reals they denote) and the three non-finite
  ones.
\<close>

datatype pyfloat = Finite real | PosInf | NegInf | NaN

record box =
  cls :: int
  conf :: pyfloat
  xyxy :: "int \<times> int \<times> int \<times> int"

text \<open>The external functions \<^verbatim>\<open>upload\<close> calls.\<close>

record ext =
  names :: "int \<rightharpoonup> string"
  fmt_pct2 :: "pyfloat \<Rightarrow> string"
  fmt_pct0 :: "pyfloat \<Rightarrow> string"
  getTextSize :: "string \<Rightarrow> int \<times> int"

text \<open>
  Python's \<^verbatim>\<open>f"{c:.d%}"\<close> on the value a float denotes: a hundred times the value,
  rounded to \<open>d\<close> decimals with ties to even, then the percent sign; the non-finite
  floats print as \<^verbatim>\<open>inf%\<close>, \<^verbatim>\<open>-inf%\<close> and \<^verbatim>\<open>nan%\<close>. (The float \<^verbatim>\<open>-0.0\<close> and the
  rounding of the product to a float are not represented.)
\<close>

definition round_half_even :: "real \<Rightarrow> int" where
  "round_half_even x =
     (let f = \<lfloor>x\<rfloor>; d = x - of_int f
      in if d < 1 / 2 then f else if 1 / 2 < d then f + 1 else if even f then f else f + 1)"

function decimal :: "nat \<Rightarrow> string" where
  "decimal n =
     (if n < 10 then [''0123456789'' ! n]
      else decimal (n div 10) @ [''0123456789'' ! (n mod 10)])"
  by pat_completeness auto
termination
  by (relation "measure (\<lambda>n. n)") auto

declare decimal.simps [simp del]

definition py_percent :: "nat \<Rightarrow> pyfloat \<Rightarrow> string" where
  "py_percent d c =
     (case c of
        Finite r \<Rightarrow>
          (let n = nat (round_half_even (\<bar>r\<bar> * 100 * 10 ^ d));
               whole = decimal (n div 10 ^ d);
               frac = decimal (n mod 10 ^ d)
           in (if r < 0 then ''-'' else []) @ whole @
              (if d = 0 then [] else ''.'' @ replicate (d - length frac) CHR ''0'' @ frac) @
              ''%'')
      | PosInf \<Rightarrow> ''inf%''
      | NegInf \<Rightarrow> ''-inf%''
      | NaN \<Rightarrow> ''nan%'')"

subsection \<open>Images and the file system\<close>

text \<open>
  The two OpenCV drawing calls of the handler, with the arguments that vary (font
  \<^verbatim>\<open>FONT_HERSHEY_SIMPLEX\<close> and scale \<^verbatim>\<open>0.7\<close> are fixed).
\<close>

datatype draw_op =
    Rectangle "int \<times> int" "int \<times> int" color int
  | PutText string "int \<times> int" color int

record image =
  source :: string
  drawn :: "draw_op list"

datatype blob = Raw string | Encoded image

type_synonym filesystem = "string \<rightharpoonup> blob"

text \<open>
  \<^verbatim>\<open>cv2.imread(path)\<close>: the decoded file, \<^verbatim>\<open>None\<close> when there is no file.
\<close>

definition imread :: "filesystem \<Rightarrow> string \<Rightarrow> image option" where
  "imread fs path =
     (case fs path of
        None \<Rightarrow> None
      | Some (Raw b) \<Rightarrow> Some \<lparr>source = b, drawn = []\<rparr>
      | Some (Encoded im) \<Rightarrow> Some im)"

subsection \<open>The database\<close>

text \<open>A row of \<^verbatim>\<open>detection_history\<close>.\<close>

record row =
  row_id :: nat
  user_id :: nat
  original_image :: string
  result_image :: string
  vehicle_status :: string
  defect_classes :: string
  confidence_scores :: string
  detection_count :: nat
  timestamp :: nat

text \<open>
  The state: the table in insertion order, the \<^verbatim>\<open>AUTOINCREMENT\<close> counter, and the files.
\<close>

record world =
  detection_history :: "row list"
  sqlite_sequence :: nat
  files :: filesystem

definition init_world :: world where
  "init_world = \<lparr>detection_history = [], sqlite_sequence = 0, files = Map.empty\<rparr>"

subsection \<open>Requests and responses\<close>

datatype http_method = GET | POST

record upload_file =
  filename :: string
  content :: string

record request =
  session :: "(nat \<times> string) option"
  req_method :: http_method
  image_file :: "upload_file option"

text \<open>What the environment supplies to one run of \<^verbatim>\<open>upload\<close>.\<close>

record env =
  uuid8 :: string
  strftime_now :: string
  current_timestamp :: nat
  yolo_boxes :: "box list option"

datatype exn = KeyError int | DetectorRaised | Cv2Error

record detection =
  d_class :: string
  d_confidence :: string

record result_data =
  rd_result_image :: string
  rd_original_image :: string
  rd_vehicle_status :: string
  rd_detections :: "detection list"
  rd_detection_count :: nat

datatype response =
    Redirect_login
  | Render_upload "(string \<times> string) option" "result_data option"
  | Raised exn

subsection \<open>The loop over \<^verbatim>\<open>results.boxes\<close>\<close>

record loop_state =
  img :: image
  detections :: "detection list"
  classes :: "string list"
  scores :: "string list"

definition draw :: "draw_op \<Rightarrow> image \<Rightarrow> image" where
  "draw op im = im\<lparr>drawn := drawn im @ [op]\<rparr>"

text \<open>
  OpenCV takes a point as two C \<^verbatim>\<open>int\<close>s: a call with a coordinate outside
  \<open>[-2\<^sup>3\<^sup>1, 2\<^sup>3\<^sup>1)\<close> raises, any other call draws.
\<close>

definition c_int :: "int \<Rightarrow> bool" where
  "c_int i \<longleftrightarrow> - (2 ^ 31) \<le> i \<and> i < 2 ^ 31"

definition c_point :: "int \<times> int \<Rightarrow> bool" where
  "c_point p \<longleftrightarrow> c_int (fst p) \<and> c_int (snd p)"

definition cv2_rectangle ::
  "int \<times> int \<Rightarrow> int \<times> int \<Rightarrow> color \<Rightarrow> int \<Rightarrow> image \<Rightarrow> exn + image" where
  "cv2_rectangle pt1 pt2 col thickness im =
     (if c_point pt1 \<and> c_point pt2 then Inr (draw (Rectangle pt1 pt2 col thickness) im)
      else Inl Cv2Error)"

definition cv2_putText ::
  "string \<Rightarrow> int \<times> int \<Rightarrow> color \<Rightarrow> int \<Rightarrow> image \<Rightarrow> exn + image" where
  "cv2_putText label org col thickness im =
     (if c_point org then Inr (draw (PutText label org col thickness) im) else Inl Cv2Error)"

definition box_step :: "ext \<Rightarrow> box \<Rightarrow> loop_state \<Rightarrow> exn + loop_state" where
  "box_step e b st =
     (case names e (cls b) of
        None \<Rightarrow> Inl (KeyError (cls b))
      | Some class_name \<Rightarrow>
          (case xyxy b of (x1, y1, x2, y2) \<Rightarrow>
             let color = dict_get DEFECT_COLORS class_name (0, 255, 0)
             in (case cv2_rectangle (x1, y1) (x2, y2) color 3 (img st) of
                   Inl x \<Rightarrow> Inl x
                 | Inr im1 \<Rightarrow>
                     let label = class_name @ '' | '' @ fmt_pct0 e (conf b)
                     in (case getTextSize e label of (label_w, label_h) \<Rightarrow>
                           (case cv2_rectangle (x1, y1 - label_h - 10)
                                   (x1 + label_w + 10, y1) color (- 1) im1 of
                              Inl x \<Rightarrow> Inl x
                            | Inr im2 \<Rightarrow>
                                (case cv2_putText label (x1 + 5, y1 - 5) (255, 255, 255) 2 im2 of
                                   Inl x \<Rightarrow> Inl x
                                 | Inr im3 \<Rightarrow>
                                     Inr \<lparr>img = im3,
                                          detections = detections st @
                                            [\<lparr>d_class = class_name,
                                              d_confidence = fmt_pct2 e (conf b)\<rparr>],
                                          classes = classes st @ [class_name],
                                          scores = scores st @ [fmt_pct2 e (conf b)]\<rparr>))))))"

fun boxes_loop :: "ext \<Rightarrow> box list \<Rightarrow> loop_state \<Rightarrow> exn + loop_state" where
  "boxes_loop e [] st = Inr st"
| "boxes_loop e (b # bs) st =
     (case box_step e b st of Inl x \<Rightarrow> Inl x | Inr st' \<Rightarrow> boxes_loop e bs st')"

subsection \<open>The \<^verbatim>\<open>upload\<close> handler\<close>

definition flash_no_file :: "string \<times> string" where
  "flash_no_file = (''Please select an image file to upload.'', ''error'')"

definition flash_invalid_type :: "string \<times> string" where
  "flash_invalid_type =
     (''Invalid file type. Please upload JPG or PNG images only.'', ''error'')"

definition flash_processed :: "string \<times> string" where
  "flash_processed = (''Image processed successfully!'', ''success'')"

definition file_ext_of :: "string \<Rightarrow> string" where
  "file_ext_of name = lower (rsplit_last name)"

definition make_filename :: "string \<Rightarrow> string \<Rightarrow> string \<Rightarrow> string \<Rightarrow> string" where
  "make_filename username ts unique_id file_ext =
     username @ ''_'' @ ts @ ''_'' @ unique_id @ ''.'' @ file_ext"

text \<open>The \<^verbatim>\<open>INSERT INTO detection_history\<close> with its defaults (\<^verbatim>\<open>id\<close>, \<^verbatim>\<open>timestamp\<close>).\<close>

definition insert_history ::
  "nat \<Rightarrow> string \<Rightarrow> string \<Rightarrow> string \<Rightarrow> string \<Rightarrow> string \<Rightarrow> nat \<Rightarrow> nat \<Rightarrow> world \<Rightarrow> world" where
  "insert_history uid orig res status dclasses dscores n now w =
     w\<lparr>detection_history := detection_history w @
          [\<lparr>row_id = sqlite_sequence w + 1, user_id = uid, original_image = orig,
            result_image = res, vehicle_status = status, defect_classes = dclasses,
            confidence_scores = dscores, detection_count = n, timestamp = now\<rparr>],
       sqlite_sequence := sqlite_sequence w + 1\<rparr>"

text \<open>
  The part of the handler after the file type check: naming, saving, inference,
  annotation, persistence.
\<close>

definition process_upload ::
  "ext \<Rightarrow> env \<Rightarrow> nat \<Rightarrow> string \<Rightarrow> upload_file \<Rightarrow> string \<Rightarrow> world \<Rightarrow> response \<times> world" where
  "process_upload e v uid username f file_ext w =
     (let unique_id = uuid8 v;
          ts = strftime_now v;
          fname = make_filename username ts unique_id file_ext;
          image_path = os_path_join UPLOAD_FOLDER fname;
          result_path = os_path_join RESULT_FOLDER fname;
          w1 = w\<lparr>files := (files w)(image_path \<mapsto> Raw (content f))\<rparr>
      in case yolo_boxes v of
           None \<Rightarrow> (Raised DetectorRaised, w1)
         | Some boxes \<Rightarrow>
             (case imread (files w1) image_path of
                None \<Rightarrow> (Raised Cv2Error, w1)
              | Some im \<Rightarrow>
                  let st0 = \<lparr>img = im, detections = [], classes = [], scores = []\<rparr>;
                      looped =
                        (if length boxes > 0
                         then (case boxes_loop e boxes st0 of
                                 Inl x \<Rightarrow> Inl x
                               | Inr st \<Rightarrow> Inr (''Broken'', st))
                         else Inr (''Non-Broken'', st0))
                  in (case looped of
                        Inl x \<Rightarrow> (Raised x, w1)
                      | Inr (status, st) \<Rightarrow>
                          let w2 = w1\<lparr>files := (files w1)(result_path \<mapsto> Encoded (img st))\<rparr>;
                              w3 = insert_history uid fname fname status
                                     (if classes st \<noteq> [] then join '', '' (classes st)
                                      else ''None'')
                                     (if scores st \<noteq> [] then join '', '' (scores st)
                                      else ''N/A'')
                                     (length (detections st)) (current_timestamp v) w2;
                              rd = \<lparr>rd_result_image = result_path,
                                    rd_original_image = image_path,
                                    rd_vehicle_status = status,
                                    rd_detections = detections st,
                                    rd_detection_count = length (detections st)\<rparr>
                          in (Render_upload (Some flash_processed) (Some rd), w3))))"

definition upload :: "ext \<Rightarrow> env \<Rightarrow> request \<Rightarrow> world \<Rightarrow> response \<times> world" where
  "upload e v req w =
     (case session req of
        None \<Rightarrow> (Redirect_login, w)
      | Some (uid, username) \<Rightarrow>
          if req_method req = POST then
            (case image_file req of
               None \<Rightarrow> (Render_upload (Some flash_no_file) None, w)
             | Some f \<Rightarrow>
                 if filename f = [] then (Render_upload (Some flash_no_file) None, w)
                 else if file_ext_of (filename f) \<notin> allowed_extensions
                 then (Render_upload (Some flash_invalid_type) None, w)
                 else process_upload e v uid username f (file_ext_of (filename f)) w)
          else (Render_upload None None, w))"

text \<open>A sequence of requests to \<^verbatim>\<open>/upload\<close>, each with its environment.\<close>

fun run :: "ext \<Rightarrow> (env \<times> request) list \<Rightarrow> world \<Rightarrow> world" where
  "run e [] w = w"
| "run e ((v, req) # rest) w = run e rest (snd (upload e v req w))"

subsection \<open>The queries of \<^verbatim>\<open>dashboard\<close> and \<^verbatim>\<open>history\<close>\<close>

text \<open>\<^verbatim>\<open>SELECT COUNT(*) ... WHERE user_id = ?\<close> and its two variants.\<close>

definition total_inspections :: "world \<Rightarrow> nat \<Rightarrow> nat" where
  "total_inspections w uid = length (filter (\<lambda>r. user_id r = uid) (detection_history w))"

definition broken_count :: "world \<Rightarrow> nat \<Rightarrow> nat" where
  "broken_count w uid =
     length (filter (\<lambda>r. user_id r = uid \<and> vehicle_status r = ''Broken'')
       (detection_history w))"

definition non_broken_count :: "world \<Rightarrow> nat \<Rightarrow> nat" where
  "non_broken_count w uid =
     length (filter (\<lambda>r. user_id r = uid \<and> vehicle_status r = ''Non-Broken'')
       (detection_history w))"

text \<open>\<^verbatim>\<open>SELECT * FROM detection_history WHERE user_id = ?\<close>, in table order.\<close>

definition select_user :: "world \<Rightarrow> nat \<Rightarrow> row list" where
  "select_user w uid = filter (\<lambda>r. user_id r = uid) (detection_history w)"

text \<open>
  \<^verbatim>\<open>ORDER BY timestamp DESC\<close> names one sort key and nothing else. SQL leaves the order of
  rows with equal keys to the engine, so the clause is a relation between the selected
  rows and an answer: the answer holds the same rows, newest first.
\<close>

definition order_by_timestamp_desc :: "row list \<Rightarrow> row list \<Rightarrow> bool" where
  "order_by_timestamp_desc rs out \<longleftrightarrow>
     mset out = mset rs \<and> sorted_wrt (\<lambda>a b. timestamp b \<le> timestamp a) out"

text \<open>
  One engine: rows enter a sorted answer in table order, each after the rows of the same
  timestamp already there.
\<close>

fun insert_desc :: "row \<Rightarrow> row list \<Rightarrow> row list" where
  "insert_desc r [] = [r]"
| "insert_desc r (x # xs) =
     (if timestamp x < timestamp r then r # x # xs else x # insert_desc r xs)"

definition engine_sort_desc :: "row list \<Rightarrow> row list" where
  "engine_sort_desc rs = foldl (\<lambda>acc r. insert_desc r acc) [] rs"

text \<open>The \<^verbatim>\<open>history\<close> query, and the \<^verbatim>\<open>dashboard\<close> query with its \<^verbatim>\<open>LIMIT 5\<close>.\<close>

definition history_records :: "world \<Rightarrow> nat \<Rightarrow> row list \<Rightarrow> bool" where
  "history_records w uid out \<longleftrightarrow> order_by_timestamp_desc (select_user w uid) out"

definition recent_inspections :: "world \<Rightarrow> nat \<Rightarrow> row list \<Rightarrow> bool" where
  "recent_inspections w uid out \<longleftrightarrow>
     (\<exists>sorted_rows. order_by_timestamp_desc (select_user w uid) sorted_rows \<and>
        out = take 5 sorted_rows)"

record dashboard_view =
  dv_total_inspections :: nat
  dv_broken_count :: nat
  dv_non_broken_count :: nat
  dv_recent_inspections :: "row list"

text \<open>
  \<^verbatim>\<open>dashboard\<close>: \<^verbatim>\<open>None\<close> is the redirect to the login page, \<^verbatim>\<open>Some\<close> the values handed
  to the template.
\<close>

definition dashboard :: "(nat \<times> string) option \<Rightarrow> world \<Rightarrow> dashboard_view option \<Rightarrow> bool" where
  "dashboard sess w page \<longleftrightarrow>
     (case sess of
        None \<Rightarrow> page = None
      | Some (uid, username) \<Rightarrow>
          (\<exists>recent. recent_inspections w uid recent \<and>
             page = Some \<lparr>dv_total_inspections = total_inspections w uid,
                          dv_broken_count = broken_count w uid,
                          dv_non_broken_count = non_broken_count w uid,
                          dv_recent_inspections = recent\<rparr>))"

definition history :: "(nat \<times> string) option \<Rightarrow> world \<Rightarrow> row list option \<Rightarrow> bool" where
  "history sess w page \<longleftrightarrow>
     (case sess of
        None \<Rightarrow> page = None
      | Some (uid, username) \<Rightarrow> (\<exists>records. history_records w uid records \<and> page = Some records))"

subsection \<open>What one accepted upload does\<close>

text \<open>
  The request passes the checks of the handler: a session, a \<^verbatim>\<open>POST\<close>, a file with a
  name, an allowed extension.
\<close>

definition accepted :: "request \<Rightarrow> nat \<Rightarrow> string \<Rightarrow> upload_file \<Rightarrow> bool" where
  "accepted req uid username f \<longleftrightarrow>
     session req = Some (uid, username) \<and> req_method req = POST \<and> image_file req = Some f \<and>
     filename f \<noteq> [] \<and> file_ext_of (filename f) \<in> allowed_extensions"

text \<open>Every class index of the detector's answer is a key of \<^verbatim>\<open>model.names\<close>.\<close>

definition named :: "ext \<Rightarrow> box list \<Rightarrow> bool" where
  "named e bs \<longleftrightarrow> list_all (\<lambda>b. names e (cls b) \<noteq> None) bs"

text \<open>The values the loop body computes for one box, one by one.\<close>

definition box_class :: "ext \<Rightarrow> box \<Rightarrow> string" where
  "box_class e b = (case names e (cls b) of None \<Rightarrow> [] | Some class_name \<Rightarrow> class_name)"

definition box_color :: "ext \<Rightarrow> box \<Rightarrow> color" where
  "box_color e b = dict_get DEFECT_COLORS (box_class e b) (0, 255, 0)"

definition box_label :: "ext \<Rightarrow> box \<Rightarrow> string" where
  "box_label e b = box_class e b @ '' | '' @ fmt_pct0 e (conf b)"

definition box_ops :: "ext \<Rightarrow> box \<Rightarrow> draw_op list" where
  "box_ops e b =
     (case xyxy b of (x1, y1, x2, y2) \<Rightarrow>
        (case getTextSize e (box_label e b) of (label_w, label_h) \<Rightarrow>
           [Rectangle (x1, y1) (x2, y2) (box_color e b) 3,
            Rectangle (x1, y1 - label_h - 10) (x1 + label_w + 10, y1) (box_color e b) (- 1),
            PutText (box_label e b) (x1 + 5, y1 - 5) (255, 255, 255) 2]))"

definition box_detection :: "ext \<Rightarrow> box \<Rightarrow> detection" where
  "box_detection e b = \<lparr>d_class = box_class e b, d_confidence = fmt_pct2 e (conf b)\<rparr>"

text \<open>Every point the loop hands to OpenCV for the boxes of an answer fits a C \<^verbatim>\<open>int\<close>.\<close>

fun op_points :: "draw_op \<Rightarrow> (int \<times> int) list" where
  "op_points (Rectangle pt1 pt2 col thickness) = [pt1, pt2]"
| "op_points (PutText label org col thickness) = [org]"

definition box_drawable :: "ext \<Rightarrow> box \<Rightarrow> bool" where
  "box_drawable e b \<longleftrightarrow> list_all c_point (concat (map op_points (box_ops e b)))"

definition drawable :: "ext \<Rightarrow> box list \<Rightarrow> bool" where
  "drawable e bs \<longleftrightarrow> list_all (box_drawable e) bs"

text \<open>The file name the handler composes, and the two paths it writes.\<close>

definition stored_name :: "env \<Rightarrow> string \<Rightarrow> upload_file \<Rightarrow> string" where
  "stored_name v username f =
     make_filename username (strftime_now v) (uuid8 v) (file_ext_of (filename f))"

definition image_path_of :: "env \<Rightarrow> string \<Rightarrow> upload_file \<Rightarrow> string" where
  "image_path_of v username f = os_path_join UPLOAD_FOLDER (stored_name v username f)"

definition result_path_of :: "env \<Rightarrow> string \<Rightarrow> upload_file \<Rightarrow> string" where
  "result_path_of v username f = os_path_join RESULT_FOLDER (stored_name v username f)"

subsection \<open>The specification's notions, for comparison\<close>

text \<open>
  A finding the specification calls malformed: a confidence that is not finite or not in
  \<open>[0, 1]\<close>, or a box with \<open>x1 \<ge> x2\<close> or \<open>y1 \<ge> y2\<close>.
\<close>

definition spec_malformed :: "box \<Rightarrow> bool" where
  "spec_malformed b \<longleftrightarrow>
     (case conf b of Finite c \<Rightarrow> c < 0 \<or> 1 < c | _ \<Rightarrow> True) \<or>
     (case xyxy b of (x1, y1, x2, y2) \<Rightarrow> x2 \<le> x1 \<or> y2 \<le> y1)"


text \<open>
  The order the specification gives to the recent query: newer timestamp first, and of two
  records with one timestamp the one with the larger identity first.
\<close>

definition spec_newest_first :: "row \<Rightarrow> row \<Rightarrow> bool" where
  "spec_newest_first a b \<longleftrightarrow>
     timestamp b < timestamp a \<or> (timestamp b = timestamp a \<and> row_id b < row_id a)"

subsection \<open>Example inputs\<close>

text \<open>
  A model with one class more than the color table knows, Python's own rendering of the
  confidences, and a stand-in for \<^verbatim>\<open>cv2.getTextSize\<close> (fourteen pixels a character,
  twenty-two high).
\<close>

definition demo_ext :: ext where
  "demo_ext =
     \<lparr>names = map_of [(0, ''dent''), (1, ''scratch''), (2, ''lamp_broken''),
                      (3, ''glass_broken''), (4, ''tire_flat''), (5, ''rust'')],
      fmt_pct2 = py_percent 2,
      fmt_pct0 = py_percent 0,
      getTextSize = (\<lambda>label. (14 * int (length label), 22))\<rparr>"

definition demo_env :: "nat \<Rightarrow> box list option \<Rightarrow> env" where
  "demo_env now answer =
     \<lparr>uuid8 = ''1a2b3c4d'', strftime_now = ''20240101_120000'', current_timestamp = now,
      yolo_boxes = answer\<rparr>"

definition demo_file :: "string \<Rightarrow> upload_file" where
  "demo_file name = \<lparr>filename = name, content = ''pixels''\<rparr>"

definition demo_request :: "nat \<Rightarrow> string \<Rightarrow> string \<Rightarrow> request" where
  "demo_request uid username name =
     \<lparr>session = Some (uid, username), req_method = POST, image_file = Some (demo_file name)\<rparr>"

definition dent_box :: box where
  "dent_box = \<lparr>cls = 0, conf = Finite (42 / 100), xyxy = (10, 40, 110, 90)\<rparr>"

definition rust_box :: box where
  "rust_box = \<lparr>cls = 5, conf = Finite (7 / 100), xyxy = (5, 5, 20, 30)\<rparr>"

definition nan_box :: box where
  "nan_box = \<lparr>cls = 0, conf = NaN, xyxy = (10, 40, 110, 90)\<rparr>"

definition overconfident_box :: box where
  "overconfident_box = \<lparr>cls = 1, conf = Finite (3 / 2), xyxy = (10, 40, 110, 90)\<rparr>"

definition inverted_box :: box where
  "inverted_box = \<lparr>cls = 2, conf = Finite (1 / 2), xyxy = (110, 90, 10, 40)\<rparr>"

definition far_box :: box where
  "far_box = \<lparr>cls = 0, conf = Finite (42 / 100), xyxy = (3000000256, 40, 3000000000, 90)\<rparr>"



text \<open>
  Three uploads within one second: two by one operator, with and without findings, and
  one by another operator in between. The rows the table then holds are named.
\<close>

definition demo_steps :: "(env \<times> request) list" where
  "demo_steps =
     [(demo_env 100 (Some [dent_box]), demo_request 7 ''carol'' ''car.PNG''),
      ((demo_env 100 (Some []))\<lparr>uuid8 := ''5e6f7a8b''\<rparr>, demo_request 8 ''dave'' ''car.PNG''),
      ((demo_env 100 (Some []))\<lparr>uuid8 := ''9c0d1e2f''\<rparr>, demo_request 7 ''carol'' ''car.PNG'')]"

definition demo_world :: world where
  "demo_world = run demo_ext demo_steps init_world"

definition demo_row ::
  "nat \<Rightarrow> nat \<Rightarrow> string \<Rightarrow> string \<Rightarrow> string \<Rightarrow> string \<Rightarrow> nat \<Rightarrow> row" where
  "demo_row i uid name status dclasses dscores n =
     \<lparr>row_id = i, user_id = uid, original_image = name, result_image = name,
      vehicle_status = status, defect_classes = dclasses, confidence_scores = dscores,
      detection_count = n, timestamp = 100\<rparr>"

definition carol_first :: row where
  "carol_first =
     demo_row 1 7 ''carol_20240101_120000_1a2b3c4d.png'' ''Broken'' ''dent'' ''42.00%'' 1"

definition dave_only :: row where
  "dave_only =
     demo_row 2 8 ''dave_20240101_120000_5e6f7a8b.png'' ''Non-Broken'' ''None'' ''N/A'' 0"

definition carol_second :: row where
  "carol_second =
     demo_row 3 7 ''carol_20240101_120000_9c0d1e2f.png'' ''Non-Broken'' ''None'' ''N/A'' 0"

section \<open>Properties\<close>

subsection \<open>Auxiliary facts\<close>

lemmas demo_defs =
  demo_ext_def demo_env_def demo_file_def demo_request_def
  dent_box_def rust_box_def nan_box_def overconfident_box_def inverted_box_def far_box_def

lemmas py_percent_eval = py_percent_def round_half_even_def decimal.simps Let_def

lemma file_ext_of_car_PNG: "file_ext_of ''car.PNG'' = ''png''"
  by (simp add: file_ext_of_def lower_def lower_char_def rsplit_last_def)

lemma demo_accepted:
  "accepted (demo_request uid username ''car.PNG'') uid username (demo_file ''car.PNG'')"
  by (simp add: accepted_def demo_request_def demo_file_def file_ext_of_car_PNG
      allowed_extensions_def)

lemma demo_names:
  "box_class demo_ext dent_box = ''dent''" "box_class demo_ext rust_box = ''rust''"
  "box_class demo_ext nan_box = ''dent''" "box_class demo_ext overconfident_box = ''scratch''"
  "box_class demo_ext inverted_box = ''lamp_broken''" "box_class demo_ext far_box = ''dent''"
  by (simp_all add: box_class_def demo_defs)

lemma demo_scores:
  "fmt_pct2 demo_ext (conf dent_box) = ''42.00%''" "fmt_pct0 demo_ext (conf dent_box) = ''42%''"
  "fmt_pct2 demo_ext (conf rust_box) = ''7.00%''" "fmt_pct0 demo_ext (conf rust_box) = ''7%''"
  "fmt_pct2 demo_ext (conf nan_box) = ''nan%''" "fmt_pct0 demo_ext (conf nan_box) = ''nan%''"
  "fmt_pct2 demo_ext (conf overconfident_box) = ''150.00%''"
  "fmt_pct0 demo_ext (conf overconfident_box) = ''150%''"
  "fmt_pct2 demo_ext (conf inverted_box) = ''50.00%''"
  "fmt_pct0 demo_ext (conf inverted_box) = ''50%''"
  by (simp_all add: demo_defs py_percent_eval)

lemma demo_named:
  "named demo_ext [dent_box]" "named demo_ext [rust_box]" "named demo_ext [dent_box, rust_box]"
  "named demo_ext [dent_box, inverted_box]"
  "named demo_ext [nan_box, overconfident_box, inverted_box]" "named demo_ext [far_box]"
  by (simp_all add: named_def demo_defs)

lemma demo_box_drawable:
  "box_drawable demo_ext dent_box" "box_drawable demo_ext rust_box"
  "box_drawable demo_ext nan_box" "box_drawable demo_ext overconfident_box"
  "box_drawable demo_ext inverted_box" "\<not> box_drawable demo_ext far_box"
  by (simp_all add: box_drawable_def box_ops_def box_label_def demo_names demo_scores)
    (simp_all add: demo_defs c_point_def c_int_def)

lemma demo_drawable:
  "drawable demo_ext [dent_box]" "drawable demo_ext [rust_box]"
  "drawable demo_ext [dent_box, rust_box]" "drawable demo_ext [dent_box, inverted_box]"
  "drawable demo_ext [nan_box, overconfident_box, inverted_box]"
  "\<not> drawable demo_ext [far_box]"
  by (simp_all add: drawable_def demo_box_drawable)

lemma box_step_ok:
  assumes "names e (cls b) \<noteq> None" and "box_drawable e b"
  shows "box_step e b st =
           Inr \<lparr>img = (img st)\<lparr>drawn := drawn (img st) @ box_ops e b\<rparr>,
                detections = detections st @ [box_detection e b],
                classes = classes st @ [box_class e b],
                scores = scores st @ [fmt_pct2 e (conf b)]\<rparr>"
proof -
  from assms(1) obtain cn where cn: "names e (cls b) = Some cn" by auto
  from assms(2) show ?thesis
    by (auto simp: box_step_def cn box_ops_def box_label_def box_class_def box_color_def
        box_detection_def box_drawable_def cv2_rectangle_def cv2_putText_def draw_def Let_def
        split: prod.splits)
qed

lemma box_step_fails:
  assumes "names e (cls b) = None \<or> \<not> box_drawable e b"
  shows "\<exists>x. box_step e b st = Inl x"
proof (cases "names e (cls b)")
  case None
  then show ?thesis
    by (simp add: box_step_def)
next
  case (Some cn)
  with assms have "\<not> box_drawable e b"
    by simp
  then show ?thesis
    by (auto simp: box_step_def Some box_ops_def box_label_def box_class_def box_color_def
        box_drawable_def cv2_rectangle_def cv2_putText_def Let_def
        split: prod.splits)
qed

lemma boxes_loop_ok:
  assumes "named e bs" and "drawable e bs"
  shows "boxes_loop e bs st =
           Inr \<lparr>img = (img st)\<lparr>drawn := drawn (img st) @ concat (map (box_ops e) bs)\<rparr>,
                detections = detections st @ map (box_detection e) bs,
                classes = classes st @ map (box_class e) bs,
                scores = scores st @ map (\<lambda>b. fmt_pct2 e (conf b)) bs\<rparr>"
  using assms
proof (induction bs arbitrary: st)
  case Nil
  show ?case by simp
next
  case (Cons b bs)
  from Cons.prems have b: "names e (cls b) \<noteq> None" "box_drawable e b"
    and bs: "named e bs" "drawable e bs"
    by (simp_all add: named_def drawable_def)
  show ?case
    by (simp add: box_step_ok [OF b] Cons.IH [OF bs])
qed

lemma boxes_loop_fails:
  assumes "\<not> (named e bs \<and> drawable e bs)"
  shows "\<exists>x. boxes_loop e bs st = Inl x"
  using assms
proof (induction bs arbitrary: st)
  case Nil
  then show ?case by (simp add: named_def drawable_def)
next
  case (Cons b bs)
  show ?case
  proof (cases "names e (cls b) \<noteq> None \<and> box_drawable e b")
    case True
    with Cons.prems have "\<not> (named e bs \<and> drawable e bs)"
      by (simp add: named_def drawable_def)
    from Cons.IH [OF this] show ?thesis
      using True by (simp add: box_step_ok)
  next
    case False
    then have "names e (cls b) = None \<or> \<not> box_drawable e b"
      by simp
    from box_step_fails [OF this, of st] show ?thesis
      by auto
  qed
qed

text \<open>
  An accepted upload whose detector answers, whose class indices all have names and whose
  drawing points all fit: the response and the new state, in full.
\<close>

lemma upload_processed:
  assumes acc: "accepted req uid username f"
    and det: "yolo_boxes v = Some bs"
    and nm: "named e bs"
    and dr: "drawable e bs"
  shows "upload e v req w =
     (Render_upload (Some flash_processed)
        (Some \<lparr>rd_result_image = result_path_of v username f,
               rd_original_image = image_path_of v username f,
               rd_vehicle_status = (if bs = [] then ''Non-Broken'' else ''Broken''),
               rd_detections = map (box_detection e) bs,
               rd_detection_count = length bs\<rparr>),
      insert_history uid (stored_name v username f) (stored_name v username f)
        (if bs = [] then ''Non-Broken'' else ''Broken'')
        (if bs = [] then ''None'' else join '', '' (map (box_class e) bs))
        (if bs = [] then ''N/A'' else join '', '' (map (\<lambda>b. fmt_pct2 e (conf b)) bs))
        (length bs) (current_timestamp v)
        (w\<lparr>files := (files w)
             (image_path_of v username f \<mapsto> Raw (content f),
              result_path_of v username f \<mapsto>
                Encoded \<lparr>source = content f, drawn = concat (map (box_ops e) bs)\<rparr>)\<rparr>))"
proof (cases "bs = []")
  case True
  with acc det show ?thesis
    by (simp add: upload_def accepted_def process_upload_def imread_def stored_name_def
        image_path_of_def result_path_of_def Let_def)
next
  case False
  with acc det show ?thesis
    by (simp add: upload_def accepted_def process_upload_def imread_def stored_name_def
        image_path_of_def result_path_of_def Let_def boxes_loop_ok [OF nm dr])
qed

text \<open>
  An accepted upload with a class index that \<^verbatim>\<open>model.names\<close> does not hold, or with a
  point that OpenCV refuses: the loop raises, after the upload was saved and before
  anything else is written.
\<close>

lemma upload_fails:
  assumes acc: "accepted req uid username f"
    and det: "yolo_boxes v = Some bs"
    and bad: "\<not> (named e bs \<and> drawable e bs)"
  shows "\<exists>x. upload e v req w =
     (Raised x, w\<lparr>files := (files w)(image_path_of v username f \<mapsto> Raw (content f))\<rparr>)"
proof -
  from bad have ne: "bs \<noteq> []"
    by (auto simp: named_def drawable_def)
  from boxes_loop_fails [OF bad]
  obtain x where "boxes_loop e bs
      \<lparr>img = \<lparr>source = content f, drawn = []\<rparr>, detections = [], classes = [], scores = []\<rparr> =
      Inl x"
    by blast
  with acc det ne show ?thesis
    by (simp add: upload_def accepted_def process_upload_def imread_def stored_name_def
        image_path_of_def Let_def)
qed

lemma far_box_raises:
  "spec_malformed far_box \<and>
   upload demo_ext (demo_env 100 (Some [far_box])) (demo_request 1 ''alice'' ''car.PNG'')
     init_world =
     (Raised Cv2Error,
      init_world\<lparr>files := [''static/uploads/alice_20240101_120000_1a2b3c4d.png'' \<mapsto>
        Raw ''pixels'']\<rparr>)"
  by (simp add: spec_malformed_def demo_defs upload_def process_upload_def init_world_def
      file_ext_of_car_PNG allowed_extensions_def make_filename_def os_path_join_def
      UPLOAD_FOLDER_def RESULT_FOLDER_def imread_def box_step_def cv2_rectangle_def
      c_point_def c_int_def dict_get_def DEFECT_COLORS_def Let_def)

subsection \<open>Status classification\<close>

text \<open>
  Claim C1. For every finding set produced by detection, the derived status is
  \<^verbatim>\<open>Broken\<close> (Fail) if and only if the finding set has at least one element, and
  \<^verbatim>\<open>Non-Broken\<close> (Pass) otherwise; the confidences and classes of the findings play no
  part. Here for an accepted upload whose detector answers \<open>bs\<close>: whenever the handler
  appends a record, and whenever it renders a result, the status stored and shown is
  decided by \<open>length bs\<close> alone; and it does both when every class index has a name
  and every drawing call is accepted.
\<close>

theorem upload_status_iff_findings:
  assumes "accepted req uid username f" and "yolo_boxes v = Some bs"
  shows "(\<forall>r. detection_history (snd (upload e v req w)) = detection_history w @ [r] \<longrightarrow>
            (vehicle_status r = ''Broken'' \<longleftrightarrow> 0 < length bs) \<and>
            (vehicle_status r = ''Non-Broken'' \<longleftrightarrow> length bs = 0)) \<and>
         (\<forall>rd. fst (upload e v req w) = Render_upload (Some flash_processed) (Some rd) \<longrightarrow>
            (rd_vehicle_status rd = ''Broken'' \<longleftrightarrow> 0 < length bs) \<and>
            (rd_vehicle_status rd = ''Non-Broken'' \<longleftrightarrow> length bs = 0)) \<and>
         (named e bs \<and> drawable e bs \<longrightarrow>
            (\<exists>rd r. fst (upload e v req w) = Render_upload (Some flash_processed) (Some rd) \<and>
               detection_history (snd (upload e v req w)) = detection_history w @ [r]))"
proof (cases "named e bs \<and> drawable e bs")
  case True
  then have nm: "named e bs" and dr: "drawable e bs"
    by simp_all
  show ?thesis
    by (simp add: upload_processed [OF assms nm dr] insert_history_def)
next
  case False
  from upload_fails [OF assms False, of w] show ?thesis
    using False by auto
qed

theorem upload_status_iff_findings_witness:
  "accepted (demo_request 1 ''alice'' ''car.PNG'') 1 ''alice'' (demo_file ''car.PNG'') \<and>
   yolo_boxes (demo_env 100 (Some [rust_box])) = Some [rust_box] \<and>
   named demo_ext [rust_box] \<and> drawable demo_ext [rust_box] \<and>
   vehicle_status (last (detection_history (snd (upload demo_ext (demo_env 100 (Some [rust_box]))
     (demo_request 1 ''alice'' ''car.PNG'') init_world)))) = ''Broken''"
proof -
  have det: "yolo_boxes (demo_env 100 (Some [rust_box])) = Some [rust_box]"
    by (simp add: demo_env_def)
  note ok = demo_named(2) demo_drawable(2)
  from upload_status_iff_findings [where e = demo_ext and w = init_world and uid = 1
      and username = "''alice''", OF demo_accepted det] ok
  obtain r where r:
    "detection_history (snd (upload demo_ext (demo_env 100 (Some [rust_box]))
       (demo_request 1 ''alice'' ''car.PNG'') init_world)) = detection_history init_world @ [r]"
    by blast
  with upload_status_iff_findings [where e = demo_ext and w = init_world and uid = 1
      and username = "''alice''", OF demo_accepted det]
  have "vehicle_status r = ''Broken''"
    by simp
  with r show ?thesis
    using demo_accepted det ok by simp
qed

subsection \<open>Finding count\<close>

text \<open>
  Claim C2. For every record created by processing one image, the stored finding count
  equals the length of the finding set the detector produced for that image. The loop
  appends one entry to \<^verbatim>\<open>detections\<close> per box, and \<^verbatim>\<open>len(detections)\<close> is what the
  \<^verbatim>\<open>INSERT\<close> stores and what the result page shows.
\<close>

theorem upload_count_is_length:
  assumes "accepted req uid username f" and "yolo_boxes v = Some bs"
  shows "(\<forall>r. detection_history (snd (upload e v req w)) = detection_history w @ [r] \<longrightarrow>
            detection_count r = length bs) \<and>
         (\<forall>rd. fst (upload e v req w) = Render_upload (Some flash_processed) (Some rd) \<longrightarrow>
            rd_detection_count rd = length bs \<and> length (rd_detections rd) = length bs) \<and>
         (named e bs \<and> drawable e bs \<longrightarrow>
            (\<exists>rd r. fst (upload e v req w) = Render_upload (Some flash_processed) (Some rd) \<and>
               detection_history (snd (upload e v req w)) = detection_history w @ [r]))"
proof (cases "named e bs \<and> drawable e bs")
  case True
  then have nm: "named e bs" and dr: "drawable e bs"
    by simp_all
  show ?thesis
    by (simp add: upload_processed [OF assms nm dr] insert_history_def)
next
  case False
  from upload_fails [OF assms False, of w] show ?thesis
    using False by auto
qed

theorem upload_count_is_length_witness:
  "accepted (demo_request 1 ''alice'' ''car.PNG'') 1 ''alice'' (demo_file ''car.PNG'') \<and>
   yolo_boxes (demo_env 100 (Some [dent_box, rust_box])) = Some [dent_box, rust_box] \<and>
   named demo_ext [dent_box, rust_box] \<and> drawable demo_ext [dent_box, rust_box] \<and>
   detection_count (last (detection_history (snd (upload demo_ext
     (demo_env 100 (Some [dent_box, rust_box])) (demo_request 1 ''alice'' ''car.PNG'')
     init_world)))) = 2"
proof -
  have det: "yolo_boxes (demo_env 100 (Some [dent_box, rust_box])) = Some [dent_box, rust_box]"
    by (simp add: demo_env_def)
  note ok = demo_named(3) demo_drawable(3)
  from upload_count_is_length [where e = demo_ext and w = init_world and uid = 1
      and username = "''alice''", OF demo_accepted det] ok
  obtain r where r:
    "detection_history (snd (upload demo_ext (demo_env 100 (Some [dent_box, rust_box]))
       (demo_request 1 ''alice'' ''car.PNG'') init_world)) = detection_history init_world @ [r]"
    by blast
  with upload_count_is_length [where e = demo_ext and w = init_world and uid = 1
      and username = "''alice''", OF demo_accepted det]
  have "detection_count r = 2"
    by simp
  with r show ?thesis
    using demo_accepted det ok by simp
qed

subsection \<open>Detector output is not validated\<close>

text \<open>
  Claim C6 says that a detector answer holding a finding with a non-finite confidence, a
  confidence outside \<open>[0, 1]\<close> or a degenerate box makes normalization fail with
  \<^verbatim>\<open>MalformedDetectionError\<close>, and that no record is created. The handler has no such
  check: on an answer of three findings, one of each kind, it renders the result page,
  lists all three, and inserts a record counting them.
\<close>

theorem malformed_findings_counterexample:
  "spec_malformed nan_box \<and> spec_malformed overconfident_box \<and> spec_malformed inverted_box \<and>
   fst (upload demo_ext (demo_env 100 (Some [nan_box, overconfident_box, inverted_box]))
          (demo_request 1 ''alice'' ''car.PNG'') init_world) =
     Render_upload (Some flash_processed)
       (Some \<lparr>rd_result_image = ''static/results/alice_20240101_120000_1a2b3c4d.png'',
              rd_original_image = ''static/uploads/alice_20240101_120000_1a2b3c4d.png'',
              rd_vehicle_status = ''Broken'',
              rd_detections = [\<lparr>d_class = ''dent'', d_confidence = ''nan%''\<rparr>,
                               \<lparr>d_class = ''scratch'', d_confidence = ''150.00%''\<rparr>,
                               \<lparr>d_class = ''lamp_broken'', d_confidence = ''50.00%''\<rparr>],
              rd_detection_count = 3\<rparr>) \<and>
   detection_history (snd (upload demo_ext
       (demo_env 100 (Some [nan_box, overconfident_box, inverted_box]))
       (demo_request 1 ''alice'' ''car.PNG'') init_world)) =
     [\<lparr>row_id = 1, user_id = 1,
       original_image = ''alice_20240101_120000_1a2b3c4d.png'',
       result_image = ''alice_20240101_120000_1a2b3c4d.png'',
       vehicle_status = ''Broken'',
       defect_classes = ''dent, scratch, lamp_broken'',
       confidence_scores = ''nan%, 150.00%, 50.00%'',
       detection_count = 3, timestamp = 100\<rparr>]"
proof -
  have det: "yolo_boxes (demo_env 100 (Some [nan_box, overconfident_box, inverted_box])) =
      Some [nan_box, overconfident_box, inverted_box]"
    by (simp add: demo_env_def)
  have bad: "spec_malformed nan_box" "spec_malformed overconfident_box"
    "spec_malformed inverted_box"
    by (simp_all add: spec_malformed_def demo_defs)
  have name: "stored_name (demo_env 100 (Some [nan_box, overconfident_box, inverted_box]))
      ''alice'' (demo_file ''car.PNG'') = ''alice_20240101_120000_1a2b3c4d.png''"
    by (simp add: stored_name_def make_filename_def demo_env_def demo_file_def
        file_ext_of_car_PNG)
  have paths:
    "result_path_of (demo_env 100 (Some [nan_box, overconfident_box, inverted_box]))
       ''alice'' (demo_file ''car.PNG'') = ''static/results/alice_20240101_120000_1a2b3c4d.png''"
    "image_path_of (demo_env 100 (Some [nan_box, overconfident_box, inverted_box]))
       ''alice'' (demo_file ''car.PNG'') = ''static/uploads/alice_20240101_120000_1a2b3c4d.png''"
    by (simp_all add: result_path_of_def image_path_of_def name os_path_join_def
        RESULT_FOLDER_def UPLOAD_FOLDER_def)
  show ?thesis
    using bad
    by (simp add: upload_processed [OF demo_accepted det demo_named(5) demo_drawable(5)]
        name paths insert_history_def box_detection_def demo_names demo_scores)
      (simp add: init_world_def demo_env_def)
qed

text \<open>
  Claim C6 as amended. The handler does not validate the detector's answer. For every
  answer holding at least one finding that the specification calls malformed (and whose
  class indices are keys of \<^verbatim>\<open>model.names\<close>): when every point of the drawing calls fits
  a C \<^verbatim>\<open>int\<close>, the upload is processed like any other, the result page is rendered,
  every finding is listed and drawn on the stored result image, and one record is
  created, with status \<^verbatim>\<open>Broken\<close> and a finding count equal to the number of findings;
  otherwise a drawing call raises and no record is created.
\<close>

theorem malformed_findings_are_processed:
  assumes "accepted req uid username f" and "yolo_boxes v = Some bs" and "named e bs"
    and "list_ex spec_malformed bs"
  shows "(drawable e bs \<longrightarrow>
           (\<exists>rd r. fst (upload e v req w) = Render_upload (Some flash_processed) (Some rd) \<and>
              rd_detections rd = map (box_detection e) bs \<and>
              detection_history (snd (upload e v req w)) = detection_history w @ [r] \<and>
              vehicle_status r = ''Broken'' \<and>
              detection_count r = length bs \<and>
              files (snd (upload e v req w)) (result_path_of v username f) =
                Some (Encoded \<lparr>source = content f, drawn = concat (map (box_ops e) bs)\<rparr>))) \<and>
         (\<not> drawable e bs \<longrightarrow>
           (\<exists>x. fst (upload e v req w) = Raised x) \<and>
           detection_history (snd (upload e v req w)) = detection_history w)"
proof (cases "drawable e bs")
  case True
  from assms(4) have "bs \<noteq> []"
    by (auto simp: list_ex_iff)
  then show ?thesis
    using True by (simp add: upload_processed [OF assms(1-3) True] insert_history_def)
next
  case False
  then have "\<not> (named e bs \<and> drawable e bs)"
    by simp
  from upload_fails [OF assms(1,2) this, of w] show ?thesis
    using False by auto
qed

theorem malformed_findings_are_processed_witness:
  "accepted (demo_request 1 ''alice'' ''car.PNG'') 1 ''alice'' (demo_file ''car.PNG'') \<and>
   yolo_boxes (demo_env 100 (Some [dent_box, inverted_box])) = Some [dent_box, inverted_box] \<and>
   named demo_ext [dent_box, inverted_box] \<and>
   list_ex spec_malformed [dent_box, inverted_box] \<and>
   drawable demo_ext [dent_box, inverted_box] \<and>
   detection_count (last (detection_history (snd (upload demo_ext
     (demo_env 100 (Some [dent_box, inverted_box])) (demo_request 1 ''alice'' ''car.PNG'')
     init_world)))) = 2 \<and>
   yolo_boxes (demo_env 100 (Some [far_box])) = Some [far_box] \<and>
   named demo_ext [far_box] \<and>
   list_ex spec_malformed [far_box] \<and>
   \<not> drawable demo_ext [far_box] \<and>
   detection_history (snd (upload demo_ext (demo_env 100 (Some [far_box]))
     (demo_request 1 ''alice'' ''car.PNG'') init_world)) = detection_history init_world"
proof -
  have det: "yolo_boxes (demo_env 100 (Some [dent_box, inverted_box])) =
      Some [dent_box, inverted_box]"
    and det': "yolo_boxes (demo_env 100 (Some [far_box])) = Some [far_box]"
    by (simp_all add: demo_env_def)
  have bad: "list_ex spec_malformed [dent_box, inverted_box]"
    and bad': "list_ex spec_malformed [far_box]"
    by (simp_all add: spec_malformed_def demo_defs)
  from malformed_findings_are_processed [OF demo_accepted det demo_named(4) bad]
    demo_drawable(4)
  obtain r where
    "detection_history (snd (upload demo_ext (demo_env 100 (Some [dent_box, inverted_box]))
       (demo_request 1 ''alice'' ''car.PNG'') init_world)) = detection_history init_world @ [r]"
    and "detection_count r = length [dent_box, inverted_box]"
    by blast
  moreover
  from malformed_findings_are_processed [OF demo_accepted det' demo_named(6) bad']
    demo_drawable(6)
  have "detection_history (snd (upload demo_ext (demo_env 100 (Some [far_box]))
      (demo_request 1 ''alice'' ''car.PNG'') init_world)) = detection_history init_world"
    by blast
  ultimately show ?thesis
    using demo_accepted det det' demo_named(4,6) demo_drawable(4,6) bad bad' by simp
qed

subsection \<open>Annotation colors\<close>

text \<open>
  Claim C7. A finding whose class name is not a key of \<^verbatim>\<open>DEFECT_COLORS\<close> is drawn in
  the one fallback color \<open>(0, 255, 0)\<close>; it is still drawn and recorded, and it never
  aborts the inspection. Here for every accepted upload whose class indices have names
  and whose drawing points fit (neither depends on the color table): the result page is
  rendered and lists the class of every box, the record counts every box, the stored
  result image is the source with the drawing calls of every box in detector order, and
  for each box of an unknown class both rectangles are drawn in \<open>(0, 255, 0)\<close>. The
  drawing calls are a function of the external table and the box alone, so they are the
  same on every run.
\<close>

theorem unknown_class_gets_fallback_color:
  assumes "accepted req uid username f" and "yolo_boxes v = Some bs" and "named e bs"
    and "drawable e bs"
  shows "\<exists>rd r. fst (upload e v req w) = Render_upload (Some flash_processed) (Some rd) \<and>
           map d_class (rd_detections rd) = map (box_class e) bs \<and>
           detection_history (snd (upload e v req w)) = detection_history w @ [r] \<and>
           detection_count r = length bs \<and>
           (bs \<noteq> [] \<longrightarrow> defect_classes r = join '', '' (map (box_class e) bs)) \<and>
           files (snd (upload e v req w)) (result_path_of v username f) =
             Some (Encoded \<lparr>source = content f, drawn = concat (map (box_ops e) bs)\<rparr>) \<and>
           (\<forall>b \<in> set bs. box_class e b \<notin> fst ` set DEFECT_COLORS \<longrightarrow>
              box_color e b = (0, 255, 0) \<and>
              (\<exists>p1 p2 q1 q2 org.
                 box_ops e b = [Rectangle p1 p2 (0, 255, 0) 3, Rectangle q1 q2 (0, 255, 0) (- 1),
                   PutText (box_label e b) org (255, 255, 255) 2]))"
proof -
  have fallback: "box_color e b = (0, 255, 0)"
    if "box_class e b \<notin> fst ` set DEFECT_COLORS" for b
  proof -
    from that have "map_of DEFECT_COLORS (box_class e b) = None"
      by (simp add: map_of_eq_None_iff)
    then show ?thesis
      by (simp add: box_color_def dict_get_def)
  qed
  have ops: "\<exists>p1 p2 q1 q2 org.
      box_ops e b = [Rectangle p1 p2 (box_color e b) 3, Rectangle q1 q2 (box_color e b) (- 1),
        PutText (box_label e b) org (255, 255, 255) 2]" for b
    by (simp add: box_ops_def split: prod.splits)
  have "\<forall>b \<in> set bs. box_class e b \<notin> fst ` set DEFECT_COLORS \<longrightarrow>
      box_color e b = (0, 255, 0) \<and>
      (\<exists>p1 p2 q1 q2 org.
         box_ops e b = [Rectangle p1 p2 (0, 255, 0) 3, Rectangle q1 q2 (0, 255, 0) (- 1),
           PutText (box_label e b) org (255, 255, 255) 2])"
    using fallback ops by metis
  then show ?thesis
    by (simp add: upload_processed [OF assms] insert_history_def box_detection_def comp_def)
qed

theorem unknown_class_gets_fallback_color_witness:
  "accepted (demo_request 1 ''alice'' ''car.PNG'') 1 ''alice'' (demo_file ''car.PNG'') \<and>
   yolo_boxes (demo_env 100 (Some [rust_box])) = Some [rust_box] \<and>
   named demo_ext [rust_box] \<and> drawable demo_ext [rust_box] \<and>
   box_class demo_ext rust_box = ''rust'' \<and>
   ''rust'' \<notin> fst ` set DEFECT_COLORS \<and>
   box_label demo_ext rust_box = ''rust | 7%'' \<and>
   box_color demo_ext rust_box = (0, 255, 0) \<and>
   hd (box_ops demo_ext rust_box) = Rectangle (5, 5) (20, 30) (0, 255, 0) 3 \<and>
   files (snd (upload demo_ext (demo_env 100 (Some [rust_box]))
       (demo_request 1 ''alice'' ''car.PNG'') init_world))
     ''static/results/alice_20240101_120000_1a2b3c4d.png'' =
     Some (Encoded \<lparr>source = ''pixels'', drawn = box_ops demo_ext rust_box\<rparr>)"
proof -
  have det: "yolo_boxes (demo_env 100 (Some [rust_box])) = Some [rust_box]"
    by (simp add: demo_env_def)
  note ok = demo_named(2) demo_drawable(2)
  have unknown: "''rust'' \<notin> fst ` set DEFECT_COLORS"
    by (simp add: DEFECT_COLORS_def)
  have label: "box_label demo_ext rust_box = ''rust | 7%''"
    by (simp add: box_label_def demo_names demo_scores)
  have path: "result_path_of (demo_env 100 (Some [rust_box])) ''alice'' (demo_file ''car.PNG'') =
      ''static/results/alice_20240101_120000_1a2b3c4d.png''"
    by (simp add: result_path_of_def stored_name_def make_filename_def os_path_join_def
        RESULT_FOLDER_def demo_env_def demo_file_def file_ext_of_car_PNG)
  have src: "content (demo_file ''car.PNG'') = ''pixels''"
    by (simp add: demo_file_def)
  from unknown_class_gets_fallback_color [OF demo_accepted det ok]
  have stored: "files (snd (upload demo_ext (demo_env 100 (Some [rust_box]))
        (demo_request 1 ''alice'' ''car.PNG'') init_world))
      (result_path_of (demo_env 100 (Some [rust_box])) ''alice'' (demo_file ''car.PNG'')) =
      Some (Encoded \<lparr>source = content (demo_file ''car.PNG''),
        drawn = concat (map (box_ops demo_ext) [rust_box])\<rparr>)"
    and col: "box_color demo_ext rust_box = (0, 255, 0)"
    using demo_names(2) unknown by auto
  have first: "hd (box_ops demo_ext rust_box) = Rectangle (5, 5) (20, 30) (0, 255, 0) 3"
    using col by (simp add: box_ops_def split: prod.splits) (simp add: rust_box_def)
  from stored show ?thesis
    using demo_accepted det ok demo_names(2) unknown label col first by (simp add: path src)
qed

subsection \<open>An image without findings\<close>

text \<open>
  Claim C8. When the finding set is empty no step is skipped: the result image is still
  written, it is the decoded source with no drawing call applied (so of the same
  dimensions and visually unchanged), and a record with status \<^verbatim>\<open>Non-Broken\<close> and
  finding count \<open>0\<close> is created.
\<close>

theorem empty_findings_full_pipeline:
  assumes "accepted req uid username f" and "yolo_boxes v = Some []"
  shows "fst (upload e v req w) =
           Render_upload (Some flash_processed)
             (Some \<lparr>rd_result_image = result_path_of v username f,
                    rd_original_image = image_path_of v username f,
                    rd_vehicle_status = ''Non-Broken'',
                    rd_detections = [],
                    rd_detection_count = 0\<rparr>) \<and>
         files (snd (upload e v req w)) (result_path_of v username f) =
           Some (Encoded \<lparr>source = content f, drawn = []\<rparr>) \<and>
         imread (files (snd (upload e v req w))) (result_path_of v username f) =
           imread [image_path_of v username f \<mapsto> Raw (content f)] (image_path_of v username f) \<and>
         detection_history (snd (upload e v req w)) =
           detection_history w @
             [\<lparr>row_id = sqlite_sequence w + 1, user_id = uid,
               original_image = stored_name v username f,
               result_image = stored_name v username f,
               vehicle_status = ''Non-Broken'', defect_classes = ''None'',
               confidence_scores = ''N/A'', detection_count = 0,
               timestamp = current_timestamp v\<rparr>]"
proof -
  have nm: "named e []" and dr: "drawable e []"
    by (simp_all add: named_def drawable_def)
  show ?thesis
    by (simp add: upload_processed [OF assms nm dr] insert_history_def imread_def)
qed

theorem empty_findings_full_pipeline_witness:
  "accepted (demo_request 1 ''alice'' ''car.PNG'') 1 ''alice'' (demo_file ''car.PNG'') \<and>
   yolo_boxes (demo_env 100 (Some [])) = Some [] \<and>
   files (snd (upload demo_ext (demo_env 100 (Some []))
       (demo_request 1 ''alice'' ''car.PNG'') init_world))
     ''static/results/alice_20240101_120000_1a2b3c4d.png'' =
     Some (Encoded \<lparr>source = ''pixels'', drawn = []\<rparr>) \<and>
   detection_history (snd (upload demo_ext (demo_env 100 (Some []))
       (demo_request 1 ''alice'' ''car.PNG'') init_world)) =
     [\<lparr>row_id = 1, user_id = 1,
       original_image = ''alice_20240101_120000_1a2b3c4d.png'',
       result_image = ''alice_20240101_120000_1a2b3c4d.png'',
       vehicle_status = ''Non-Broken'', defect_classes = ''None'',
       confidence_scores = ''N/A'', detection_count = 0, timestamp = 100\<rparr>]"
proof -
  have det: "yolo_boxes (demo_env 100 (Some [])) = Some []"
    by (simp add: demo_env_def)
  have name: "stored_name (demo_env 100 (Some [])) ''alice'' (demo_file ''car.PNG'') =
      ''alice_20240101_120000_1a2b3c4d.png''"
    by (simp add: stored_name_def make_filename_def demo_env_def demo_file_def
        file_ext_of_car_PNG)
  have path: "result_path_of (demo_env 100 (Some [])) ''alice'' (demo_file ''car.PNG'') =
      ''static/results/alice_20240101_120000_1a2b3c4d.png''"
    by (simp add: result_path_of_def name os_path_join_def RESULT_FOLDER_def)
  from empty_findings_full_pipeline [where e = demo_ext and w = init_world and uid = 1
      and username = "''alice''", OF demo_accepted det]
  show ?thesis
    using demo_accepted det
    by (simp add: name path) (simp add: demo_env_def demo_file_def init_world_def)
qed

subsection \<open>File type check\<close>




subsection \<open>The ledger after a sequence of uploads\<close>

lemmas demo_row_defs = carol_first_def dave_only_def carol_second_def demo_row_def

lemma demo_world_history:
  "detection_history demo_world = [carol_first, dave_only, carol_second]"
proof -
  have det: "yolo_boxes (demo_env 100 (Some [dent_box])) = Some [dent_box]"
    "yolo_boxes ((demo_env 100 (Some []))\<lparr>uuid8 := ''5e6f7a8b''\<rparr>) = Some []"
    "yolo_boxes ((demo_env 100 (Some []))\<lparr>uuid8 := ''9c0d1e2f''\<rparr>) = Some []"
    by (simp_all add: demo_env_def)
  have none: "named demo_ext []" "drawable demo_ext []"
    by (simp_all add: named_def drawable_def)
  show ?thesis
    by (simp add: demo_world_def demo_steps_def
        upload_processed [OF demo_accepted det(1) demo_named(1) demo_drawable(1)]
        upload_processed [OF demo_accepted det(2) none]
        upload_processed [OF demo_accepted det(3) none]
        insert_history_def demo_names demo_scores)
      (simp add: stored_name_def make_filename_def file_ext_of_car_PNG demo_env_def
        demo_file_def init_world_def demo_row_defs)
qed

lemma demo_select_carol: "select_user demo_world 7 = [carol_first, carol_second]"
  by (simp add: select_user_def demo_world_history) (simp add: demo_row_defs)

lemma upload_history_cases:
  "detection_history (snd (upload e v req w)) = detection_history w \<or>
   (\<exists>r. detection_history (snd (upload e v req w)) = detection_history w @ [r] \<and>
      (vehicle_status r = ''Broken'' \<or> vehicle_status r = ''Non-Broken''))"
  by (auto simp: upload_def process_upload_def insert_history_def Let_def
      split: option.splits sum.splits prod.splits if_splits)

lemma run_statuses:
  assumes "\<forall>r \<in> set (detection_history w).
      vehicle_status r = ''Broken'' \<or> vehicle_status r = ''Non-Broken''"
  shows "\<forall>r \<in> set (detection_history (run e steps w)).
      vehicle_status r = ''Broken'' \<or> vehicle_status r = ''Non-Broken''"
  using assms
proof (induction steps arbitrary: w)
  case Nil
  then show ?case by simp
next
  case (Cons step steps)
  obtain v req where step: "step = (v, req)" by (cases step)
  from upload_history_cases [of e v req w] Cons.prems
  have "\<forall>r \<in> set (detection_history (snd (upload e v req w))).
      vehicle_status r = ''Broken'' \<or> vehicle_status r = ''Non-Broken''"
    by auto
  from Cons.IH [OF this] show ?case
    by (simp add: step)
qed

lemma count_by_status:
  assumes "\<forall>r \<in> set rs. vehicle_status r = ''Broken'' \<or> vehicle_status r = ''Non-Broken''"
  shows "length (filter (\<lambda>r. user_id r = uid) rs) =
     length (filter (\<lambda>r. user_id r = uid \<and> vehicle_status r = ''Broken'') rs) +
     length (filter (\<lambda>r. user_id r = uid \<and> vehicle_status r = ''Non-Broken'') rs)"
  using assms by (induction rs) auto

lemma length_filter_mset_eq:
  assumes "mset xs = mset ys"
  shows "length (filter P xs) = length (filter P ys)"
proof -
  have "size (filter_mset P (mset xs)) = size (filter_mset P (mset ys))"
    using assms by simp
  then show ?thesis
    by (simp only: mset_filter [symmetric] size_mset)
qed

lemma filter_select_user:
  "filter P (select_user w uid) = filter (\<lambda>r. user_id r = uid \<and> P r) (detection_history w)"
  by (simp add: select_user_def conj_commute)

lemma mset_insert_desc: "mset (insert_desc r xs) = add_mset r (mset xs)"
  by (induction xs) auto

lemma set_insert_desc: "set (insert_desc r xs) = insert r (set xs)"
  by (induction xs) auto

lemma sorted_insert_desc:
  assumes "sorted_wrt (\<lambda>a b. timestamp b \<le> timestamp a) xs"
  shows "sorted_wrt (\<lambda>a b. timestamp b \<le> timestamp a) (insert_desc r xs)"
  using assms by (induction xs) (auto simp: set_insert_desc)

lemma foldl_insert_desc:
  "mset (foldl (\<lambda>acc r. insert_desc r acc) acc rs) = mset acc + mset rs \<and>
   (sorted_wrt (\<lambda>a b. timestamp b \<le> timestamp a) acc \<longrightarrow>
      sorted_wrt (\<lambda>a b. timestamp b \<le> timestamp a) (foldl (\<lambda>acc r. insert_desc r acc) acc rs))"
  by (induction rs arbitrary: acc) (auto simp: mset_insert_desc sorted_insert_desc)

lemma order_by_engine: "order_by_timestamp_desc rs (engine_sort_desc rs)"
  using foldl_insert_desc [of "[]" rs]
  by (simp add: order_by_timestamp_desc_def engine_sort_desc_def)

lemma demo_recent_carol: "recent_inspections demo_world 7 [carol_first, carol_second]"
proof -
  have "order_by_timestamp_desc (select_user demo_world 7) [carol_first, carol_second]"
    by (simp add: order_by_timestamp_desc_def demo_select_carol) (simp add: demo_row_defs)
  then show ?thesis
    unfolding recent_inspections_def by (intro exI [of _ "[carol_first, carol_second]"]) simp
qed

lemma demo_history_carol: "history_records demo_world 7 [carol_second, carol_first]"
  by (simp add: history_records_def order_by_timestamp_desc_def demo_select_carol)
    (simp add: demo_row_defs)

subsection \<open>Aggregate counts\<close>

text \<open>
  Claim C3. For every operator and every sequence of uploads, the counts the dashboard
  shows satisfy \<open>total = non_broken + broken\<close>, each count is the frequency of its
  status among the operator's records, and they are computed from the same records as the
  full listing of \<^verbatim>\<open>history\<close> on that state: the total is the length of the listing
  and the two counts are the numbers of listed records of each status. The state is any
  one reached from the empty database by requests to \<^verbatim>\<open>upload\<close> (the only writer of
  the table), which is what makes every status one of the two counted. On every such
  state both pages have an answer.
\<close>

theorem aggregate_counts_consistent:
  assumes "w = run e steps init_world"
  shows "(\<exists>page. dashboard (Some (uid, username)) w (Some page)) \<and>
         (\<exists>records. history (Some (uid, username)) w (Some records)) \<and>
         (\<forall>page records.
            dashboard (Some (uid, username)) w (Some page) \<longrightarrow>
            history (Some (uid, username)) w (Some records) \<longrightarrow>
            dv_total_inspections page = dv_non_broken_count page + dv_broken_count page \<and>
            dv_total_inspections page = length records \<and>
            dv_non_broken_count page =
              length (filter (\<lambda>r. vehicle_status r = ''Non-Broken'') records) \<and>
            dv_broken_count page =
              length (filter (\<lambda>r. vehicle_status r = ''Broken'') records) \<and>
            mset records = mset (filter (\<lambda>r. user_id r = uid) (detection_history w)))"
proof (intro conjI allI impI)
  have "recent_inspections w uid (take 5 (engine_sort_desc (select_user w uid)))"
    unfolding recent_inspections_def using order_by_engine by blast
  then show "\<exists>page. dashboard (Some (uid, username)) w (Some page)"
    by (auto simp: dashboard_def)
  have "history_records w uid (engine_sort_desc (select_user w uid))"
    unfolding history_records_def by (rule order_by_engine)
  then show "\<exists>records. history (Some (uid, username)) w (Some records)"
    by (auto simp: history_def)
next
  fix page records
  assume dash: "dashboard (Some (uid, username)) w (Some page)"
    and hist: "history (Some (uid, username)) w (Some records)"
  from dash have page:
    "dv_total_inspections page = total_inspections w uid"
    "dv_broken_count page = broken_count w uid"
    "dv_non_broken_count page = non_broken_count w uid"
    by (auto simp: dashboard_def)
  from hist have rec: "mset records = mset (select_user w uid)"
    by (simp add: history_def history_records_def order_by_timestamp_desc_def)
  have "\<forall>r \<in> set (detection_history init_world).
      vehicle_status r = ''Broken'' \<or> vehicle_status r = ''Non-Broken''"
    by (simp add: init_world_def)
  then have "\<forall>r \<in> set (detection_history w).
      vehicle_status r = ''Broken'' \<or> vehicle_status r = ''Non-Broken''"
    unfolding assms by (rule run_statuses)
  then have "total_inspections w uid = non_broken_count w uid + broken_count w uid"
    by (simp add: total_inspections_def broken_count_def non_broken_count_def
        count_by_status [of "detection_history w" uid])
  then show "dv_total_inspections page = dv_non_broken_count page + dv_broken_count page"
    by (simp add: page)
  show "dv_total_inspections page = length records"
    using mset_eq_length [OF rec] by (simp add: page total_inspections_def select_user_def)
  show "dv_broken_count page = length (filter (\<lambda>r. vehicle_status r = ''Broken'') records)"
    by (simp add: page length_filter_mset_eq [OF rec] filter_select_user broken_count_def)
  show "dv_non_broken_count page =
      length (filter (\<lambda>r. vehicle_status r = ''Non-Broken'') records)"
    by (simp add: page length_filter_mset_eq [OF rec] filter_select_user non_broken_count_def)
  from rec show "mset records = mset (filter (\<lambda>r. user_id r = uid) (detection_history w))"
    by (simp add: select_user_def)
qed

theorem aggregate_counts_consistent_witness:
  "demo_world = run demo_ext demo_steps init_world \<and>
   dashboard (Some (7, ''carol'')) demo_world
     (Some \<lparr>dv_total_inspections = 2, dv_broken_count = 1, dv_non_broken_count = 1,
            dv_recent_inspections = [carol_first, carol_second]\<rparr>) \<and>
   history (Some (7, ''carol'')) demo_world (Some [carol_second, carol_first]) \<and>
   (2::nat) = 1 + 1 \<and>
   (2::nat) = length [carol_second, carol_first] \<and>
   (1::nat) = length (filter (\<lambda>r. vehicle_status r = ''Broken'') [carol_second, carol_first])"
proof -
  have counts: "total_inspections demo_world 7 = 2" "broken_count demo_world 7 = 1"
    "non_broken_count demo_world 7 = 1"
    by (simp_all add: total_inspections_def broken_count_def non_broken_count_def
        demo_world_history) (simp_all add: demo_row_defs)
  have dash: "dashboard (Some (7, ''carol'')) demo_world
     (Some \<lparr>dv_total_inspections = 2, dv_broken_count = 1, dv_non_broken_count = 1,
            dv_recent_inspections = [carol_first, carol_second]\<rparr>)"
    unfolding dashboard_def using demo_recent_carol by (auto simp: counts)
  have hist: "history (Some (7, ''carol'')) demo_world (Some [carol_second, carol_first])"
    unfolding history_def using demo_history_carol by auto
  from aggregate_counts_consistent [OF demo_world_def, of 7 "''carol''"] dash hist
  have "dv_total_inspections \<lparr>dv_total_inspections = 2, dv_broken_count = 1,
          dv_non_broken_count = 1, dv_recent_inspections = [carol_first, carol_second]\<rparr> =
        dv_non_broken_count \<lparr>dv_total_inspections = 2, dv_broken_count = 1,
          dv_non_broken_count = 1, dv_recent_inspections = [carol_first, carol_second]\<rparr> +
        dv_broken_count \<lparr>dv_total_inspections = 2, dv_broken_count = 1,
          dv_non_broken_count = 1, dv_recent_inspections = [carol_first, carol_second]\<rparr>"
    and "dv_total_inspections \<lparr>dv_total_inspections = 2, dv_broken_count = 1,
          dv_non_broken_count = 1, dv_recent_inspections = [carol_first, carol_second]\<rparr> =
        length [carol_second, carol_first]"
    and "dv_broken_count \<lparr>dv_total_inspections = 2, dv_broken_count = 1,
          dv_non_broken_count = 1, dv_recent_inspections = [carol_first, carol_second]\<rparr> =
        length (filter (\<lambda>r. vehicle_status r = ''Broken'') [carol_second, carol_first])"
    by blast+
  with dash hist show ?thesis
    by (simp add: demo_world_def)
qed

subsection \<open>Queries are scoped to the operator\<close>

text \<open>
  Claim C4. For every operator and every state of the ledger, each query returns only that
  operator's records. Every row of an answer of the recent query or of the full listing is
  a row of the table with the queried \<^verbatim>\<open>user_id\<close>; and the three counts and the answers
  of both listings are the same on any two ledgers that agree on the operator's rows,
  whatever other operators' rows they hold.
\<close>

theorem queries_scoped_to_operator:
  "(recent_inspections w uid out \<longrightarrow>
      (\<forall>r \<in> set out. user_id r = uid \<and> r \<in> set (detection_history w))) \<and>
   (history_records w uid out \<longrightarrow>
      (\<forall>r \<in> set out. user_id r = uid \<and> r \<in> set (detection_history w))) \<and>
   (select_user w' uid = select_user w uid \<longrightarrow>
      total_inspections w' uid = total_inspections w uid \<and>
      broken_count w' uid = broken_count w uid \<and>
      non_broken_count w' uid = non_broken_count w uid \<and>
      recent_inspections w' uid out = recent_inspections w uid out \<and>
      history_records w' uid out = history_records w uid out)"
proof (intro conjI impI)
  have scoped: "\<forall>r \<in> set s. user_id r = uid \<and> r \<in> set (detection_history w)"
    if "order_by_timestamp_desc (select_user w uid) s" for s
  proof -
    from that have "set s = set (select_user w uid)"
      by (auto simp: order_by_timestamp_desc_def dest: mset_eq_setD)
    then show ?thesis
      by (simp add: select_user_def)
  qed
  {
    assume "recent_inspections w uid out"
    then obtain s where "order_by_timestamp_desc (select_user w uid) s" and "out = take 5 s"
      by (auto simp: recent_inspections_def)
    with scoped [of s] show "\<forall>r \<in> set out. user_id r = uid \<and> r \<in> set (detection_history w)"
      by (auto dest: in_set_takeD)
  }
  {
    assume "history_records w uid out"
    with scoped [of out] show "\<forall>r \<in> set out. user_id r = uid \<and> r \<in> set (detection_history w)"
      by (simp add: history_records_def)
  }
  {
    assume same: "select_user w' uid = select_user w uid"
    have count: "length (filter (\<lambda>r. user_id r = uid \<and> P r) (detection_history w')) =
        length (filter (\<lambda>r. user_id r = uid \<and> P r) (detection_history w))" for P
      using same by (simp flip: filter_select_user)
    from same show "total_inspections w' uid = total_inspections w uid"
      by (simp add: total_inspections_def select_user_def)
    from count show "broken_count w' uid = broken_count w uid"
      by (simp add: broken_count_def)
    from count show "non_broken_count w' uid = non_broken_count w uid"
      by (simp add: non_broken_count_def)
    from same show "recent_inspections w' uid out = recent_inspections w uid out"
      by (simp add: recent_inspections_def)
    from same show "history_records w' uid out = history_records w uid out"
      by (simp add: history_records_def)
  }
qed

theorem queries_scoped_to_operator_witness:
  "recent_inspections demo_world 7 [carol_first, carol_second] \<and>
   user_id carol_first = 7 \<and> user_id carol_second = 7 \<and>
   select_user (demo_world\<lparr>detection_history := [carol_first, carol_second]\<rparr>) 7 =
     select_user demo_world 7 \<and>
   total_inspections (demo_world\<lparr>detection_history := [carol_first, carol_second]\<rparr>) 7 =
     total_inspections demo_world 7"
proof -
  have same: "select_user (demo_world\<lparr>detection_history := [carol_first, carol_second]\<rparr>) 7 =
      select_user demo_world 7"
    by (simp add: demo_select_carol) (simp add: select_user_def demo_row_defs)
  from queries_scoped_to_operator [of demo_world 7 "[carol_first, carol_second]"
      "demo_world\<lparr>detection_history := [carol_first, carol_second]\<rparr>"]
    demo_recent_carol same
  show ?thesis by simp
qed

subsection \<open>The recent query\<close>

lemma sorted_desc_strict:
  assumes "sorted_wrt (\<lambda>a b. timestamp b \<le> timestamp a) xs" and "distinct (map timestamp xs)"
  shows "sorted_wrt (\<lambda>a b. timestamp b < timestamp a) xs"
  using assms
proof (induction xs)
  case Nil
  show ?case by simp
next
  case (Cons a xs)
  from Cons.prems have le: "\<forall>x \<in> set xs. timestamp x \<le> timestamp a"
    and s: "sorted_wrt (\<lambda>a b. timestamp b \<le> timestamp a) xs"
    and na: "timestamp a \<notin> timestamp ` set xs"
    and d: "distinct (map timestamp xs)"
    by simp_all
  have "\<forall>x \<in> set xs. timestamp x < timestamp a"
  proof
    fix x
    assume x: "x \<in> set xs"
    then have "timestamp x \<in> timestamp ` set xs"
      by (rule imageI)
    with na have "timestamp x \<noteq> timestamp a"
      by metis
    with le x show "timestamp x < timestamp a"
      by (simp add: order.strict_iff_order)
  qed
  with Cons.IH [OF s d] show ?case
    by simp
qed

lemma order_by_unique:
  assumes a: "order_by_timestamp_desc rs xs" and b: "order_by_timestamp_desc rs ys"
    and d: "distinct (map timestamp rs)"
  shows "xs = ys"
proof -
  from a b have m: "mset xs = mset rs" "mset ys = mset rs"
    and s: "sorted_wrt (\<lambda>a b. timestamp b \<le> timestamp a) xs"
      "sorted_wrt (\<lambda>a b. timestamp b \<le> timestamp a) ys"
    by (simp_all add: order_by_timestamp_desc_def)
  from m have sets: "set xs = set rs" "set ys = set rs"
    by (auto dest: mset_eq_setD)
  have mm: "mset (map timestamp xs) = mset (map timestamp rs)"
    "mset (map timestamp ys) = mset (map timestamp rs)"
    using m by simp_all
  from d have dx: "distinct (map timestamp xs)"
    by (simp only: mset_eq_imp_distinct_iff [OF mm(1)])
  from d have dy: "distinct (map timestamp ys)"
    by (simp only: mset_eq_imp_distinct_iff [OF mm(2)])
  have sx: "sorted (rev (map timestamp xs))" and sy: "sorted (rev (map timestamp ys))"
    using s by (simp_all add: sorted_wrt_rev sorted_wrt_map flip: rev_map)
  have "set (rev (map timestamp xs)) = set (rev (map timestamp ys))"
    by (simp add: sets)
  with sx sy dx dy have "rev (map timestamp xs) = rev (map timestamp ys)"
    by (intro sorted_distinct_set_unique) simp_all
  then have eq: "map timestamp xs = map timestamp ys"
    by simp
  from d have "inj_on timestamp (set rs)"
    by (simp add: distinct_map)
  then have "inj_on timestamp (set xs \<union> set ys)"
    by (simp add: sets)
  with eq show ?thesis
    by (rule map_inj_on)
qed

lemma order_by_take_newest:
  assumes "order_by_timestamp_desc rs s"
  shows "\<forall>r \<in># mset rs - mset (take n s). \<forall>x \<in> set (take n s). timestamp r \<le> timestamp x"
proof -
  from assms have m: "mset s = mset rs"
    and srt: "sorted_wrt (\<lambda>a b. timestamp b \<le> timestamp a) s"
    by (simp_all add: order_by_timestamp_desc_def)
  have "mset s = mset (take n s) + mset (drop n s)"
    by (simp flip: mset_append)
  then have "mset s - mset (take n s) = mset (drop n s)"
    by simp
  then have rest: "mset rs - mset (take n s) = mset (drop n s)"
    by (simp only: m)
  from srt have "sorted_wrt (\<lambda>a b. timestamp b \<le> timestamp a) (take n s @ drop n s)"
    by simp
  then have "\<forall>x \<in> set (take n s). \<forall>r \<in> set (drop n s). timestamp r \<le> timestamp x"
    by (simp only: sorted_wrt_append) blast
  then show ?thesis
    by (auto simp: rest)
qed

text \<open>
  Claim C5 says that the recent query orders records of equal timestamp by descending
  identity. The query is \<^verbatim>\<open>ORDER BY timestamp DESC LIMIT 5\<close> with no second key.
  After two uploads of one operator within one second, the answer that lists the older
  record first is an answer of the query (it is the one the engine above gives), and it
  is not in the order of the claim.
\<close>

theorem recent_tie_order_counterexample:
  "recent_inspections demo_world 7 [carol_first, carol_second] \<and>
   take 5 (engine_sort_desc (select_user demo_world 7)) = [carol_first, carol_second] \<and>
   timestamp carol_first = timestamp carol_second \<and>
   row_id carol_first < row_id carol_second \<and>
   \<not> sorted_wrt spec_newest_first [carol_first, carol_second]"
  using demo_recent_carol
  by (simp add: demo_select_carol engine_sort_desc_def spec_newest_first_def)
    (simp add: demo_row_defs)

text \<open>
  Claim C5 as amended. The recent query of the dashboard has an answer, and every answer
  holds records of the operator, newest first by timestamp, cut to the limit of five:
  it is sorted by descending timestamp, its length is the smaller of five and the
  operator's total, and no record left out is newer than one returned. The order among
  records of equal timestamp is not fixed. When the operator's timestamps are pairwise
  distinct the answer is unique and in the order the specification gives.
\<close>

theorem recent_newest_first_limit5:
  "recent_inspections w uid (take 5 (engine_sort_desc (select_user w uid))) \<and>
   (\<forall>out. recent_inspections w uid out \<longrightarrow>
      sorted_wrt (\<lambda>a b. timestamp b \<le> timestamp a) out \<and>
      length out = min 5 (total_inspections w uid) \<and>
      mset out \<subseteq># mset (select_user w uid) \<and>
      (\<forall>r \<in># mset (select_user w uid) - mset out. \<forall>x \<in> set out. timestamp r \<le> timestamp x) \<and>
      (distinct (map timestamp (select_user w uid)) \<longrightarrow>
         out = take 5 (engine_sort_desc (select_user w uid)) \<and>
         sorted_wrt spec_newest_first out))"
proof (intro conjI allI impI)
  show "recent_inspections w uid (take 5 (engine_sort_desc (select_user w uid)))"
    unfolding recent_inspections_def using order_by_engine by blast
next
  fix out
  assume "recent_inspections w uid out"
  then obtain s where s: "order_by_timestamp_desc (select_user w uid) s"
    and out: "out = take 5 s"
    by (auto simp: recent_inspections_def)
  from s have m: "mset s = mset (select_user w uid)"
    and srt: "sorted_wrt (\<lambda>a b. timestamp b \<le> timestamp a) s"
    by (simp_all add: order_by_timestamp_desc_def)
  show "sorted_wrt (\<lambda>a b. timestamp b \<le> timestamp a) out"
    unfolding out using srt by (rule sorted_wrt_take)
  show "length out = min 5 (total_inspections w uid)"
    using mset_eq_length [OF m]
    by (simp add: out total_inspections_def select_user_def min.commute)
  have "mset (take 5 s) \<subseteq># mset (take 5 s) + mset (drop 5 s)"
    by (rule mset_subset_eq_add_left)
  then show "mset out \<subseteq># mset (select_user w uid)"
    by (simp add: out flip: m mset_append)
  show "\<forall>r \<in># mset (select_user w uid) - mset out. \<forall>x \<in> set out. timestamp r \<le> timestamp x"
    unfolding out by (rule order_by_take_newest [OF s])
  {
    assume d: "distinct (map timestamp (select_user w uid))"
    from order_by_unique [OF s order_by_engine d]
    show "out = take 5 (engine_sort_desc (select_user w uid))"
      by (simp add: out)
    from m d have "distinct (map timestamp s)"
      by (metis mset_eq_imp_distinct_iff mset_map)
    with srt have "sorted_wrt (\<lambda>a b. timestamp b < timestamp a) s"
      by (rule sorted_desc_strict)
    then have "sorted_wrt spec_newest_first s"
      by (rule sorted_wrt_mono_rel [rotated]) (simp add: spec_newest_first_def)
    then show "sorted_wrt spec_newest_first out"
      unfolding out by (rule sorted_wrt_take)
  }
qed

theorem recent_newest_first_limit5_witness:
  "recent_inspections demo_world 7 [carol_first, carol_second] \<and>
   sorted_wrt (\<lambda>a b. timestamp b \<le> timestamp a) [carol_first, carol_second] \<and>
   length [carol_first, carol_second] = min 5 (total_inspections demo_world 7) \<and>
   \<not> distinct (map timestamp (select_user demo_world 7))"
proof -
  have "\<not> distinct (map timestamp (select_user demo_world 7))"
    by (simp add: demo_select_carol) (simp add: demo_row_defs)
  with recent_newest_first_limit5 [of demo_world 7] demo_recent_carol
  show ?thesis by blast
qed

subsection \<open>Stored image references\<close>

text \<open>
  Every record stores one name for both images: the operator name, the formatted time,
  the random suffix and the extension.
\<close>

lemma upload_shared_storage_key:
  assumes "accepted req uid username f" and "yolo_boxes v = Some bs" and "named e bs"
    and "drawable e bs"
  shows "\<exists>r. detection_history (snd (upload e v req w)) = detection_history w @ [r] \<and>
           original_image r = result_image r \<and>
           result_image r =
             username @ ''_'' @ strftime_now v @ ''_'' @ uuid8 v @ ''.'' @ file_ext_of (filename f)"
  by (simp add: upload_processed [OF assms] insert_history_def stored_name_def
      make_filename_def)

text \<open>
  Claim C10. The stored source-image reference and annotated-image reference are the same
  name, although the two files live in different folders. The references are the same
  for every record (above), but the folders are not always different. For an operator named
  \<^verbatim>\<open>/tmp/qa\<close> the composed name is an absolute path, \<^verbatim>\<open>os.path.join\<close> drops the
  folder, and both writes go to one path: after the upload the file system holds the
  annotated image only, and the upload itself is overwritten.
\<close>

theorem rooted_operator_name_one_file:
  "image_path_of (demo_env 100 (Some [dent_box])) ''/tmp/qa'' (demo_file ''car.PNG'') =
     ''/tmp/qa_20240101_120000_1a2b3c4d.png'' \<and>
   result_path_of (demo_env 100 (Some [dent_box])) ''/tmp/qa'' (demo_file ''car.PNG'') =
     ''/tmp/qa_20240101_120000_1a2b3c4d.png'' \<and>
   files (snd (upload demo_ext (demo_env 100 (Some [dent_box]))
       (demo_request 9 ''/tmp/qa'' ''car.PNG'') init_world)) =
     [''/tmp/qa_20240101_120000_1a2b3c4d.png'' \<mapsto>
        Encoded \<lparr>source = ''pixels'', drawn = box_ops demo_ext dent_box\<rparr>] \<and>
   detection_history (snd (upload demo_ext (demo_env 100 (Some [dent_box]))
       (demo_request 9 ''/tmp/qa'' ''car.PNG'') init_world)) =
     [\<lparr>row_id = 1, user_id = 9,
       original_image = ''/tmp/qa_20240101_120000_1a2b3c4d.png'',
       result_image = ''/tmp/qa_20240101_120000_1a2b3c4d.png'',
       vehicle_status = ''Broken'', defect_classes = ''dent'',
       confidence_scores = ''42.00%'', detection_count = 1, timestamp = 100\<rparr>]"
proof -
  have det: "yolo_boxes (demo_env 100 (Some [dent_box])) = Some [dent_box]"
    by (simp add: demo_env_def)
  have name: "stored_name (demo_env 100 (Some [dent_box])) ''/tmp/qa'' (demo_file ''car.PNG'') =
      ''/tmp/qa_20240101_120000_1a2b3c4d.png''"
    by (simp add: stored_name_def make_filename_def demo_env_def demo_file_def
        file_ext_of_car_PNG)
  have paths:
    "image_path_of (demo_env 100 (Some [dent_box])) ''/tmp/qa'' (demo_file ''car.PNG'') =
       ''/tmp/qa_20240101_120000_1a2b3c4d.png''"
    "result_path_of (demo_env 100 (Some [dent_box])) ''/tmp/qa'' (demo_file ''car.PNG'') =
       ''/tmp/qa_20240101_120000_1a2b3c4d.png''"
    by (simp_all add: image_path_of_def result_path_of_def name os_path_join_def)
  show ?thesis
    by (simp add: upload_processed [OF demo_accepted det demo_named(1) demo_drawable(1)]
        paths name insert_history_def demo_names demo_scores)
      (simp add: init_world_def demo_env_def demo_file_def)
qed

end
